theory Spec2Isabelle
  imports Main "HOL-Library.Word"
begin

section \<open>JavaScript strings\<close>

text \<open>
  A JavaScript string is a sequence of UTF-16 code units, and \<open>length\<close>, \<open>split\<close>,
  \<open>trim\<close>, \<open>startsWith\<close> and \<open>substring\<close> all work on code units. A code unit is a
  16-bit word, a string a list of them. \<open>js\<close> turns an ASCII literal into such a string.
\<close>

type_synonym unit16 = "16 word"
type_synonym jsstring = "unit16 list"

definition js :: "string \<Rightarrow> jsstring" where
  "js s = map (\<lambda>c. of_nat (of_char c)) s"

text \<open>
  \<open>String.prototype.trim\<close> strips WhiteSpace and LineTerminator code points, and the
  regular expression class \<open>\s\<close> is defined by ECMAScript as exactly the same set:
  TAB, LF, VT, FF, CR, SPACE, NBSP, OGHAM SPACE MARK, EN QUAD .. HAIR SPACE, LINE and
  PARAGRAPH SEPARATOR, NARROW NBSP, MEDIUM MATHEMATICAL SPACE, IDEOGRAPHIC SPACE and
  the BOM. All of them are single code units.
\<close>

definition isWhiteSpace :: "unit16 \<Rightarrow> bool" where
  "isWhiteSpace c \<longleftrightarrow>
     c = 0x09 \<or> c = 0x0A \<or> c = 0x0B \<or> c = 0x0C \<or> c = 0x0D \<or> c = 0x20 \<or> c = 0xA0 \<or>
     c = 0x1680 \<or> (0x2000 \<le> c \<and> c \<le> 0x200A) \<or> c = 0x2028 \<or> c = 0x2029 \<or>
     c = 0x202F \<or> c = 0x205F \<or> c = 0x3000 \<or> c = 0xFEFF"

definition trim :: "jsstring \<Rightarrow> jsstring" where
  "trim s = rev (dropWhile isWhiteSpace (rev (dropWhile isWhiteSpace s)))"

text \<open>
  \<open>s.split('\n')\<close>: the string is cut at every occurrence of the separator; the pieces
  between two separators, before the first and after the last are all kept, empty or
  not, so the empty string gives one empty piece. \<open>cur\<close> is the piece being read.
\<close>

fun split_at :: "unit16 \<Rightarrow> jsstring \<Rightarrow> jsstring \<Rightarrow> jsstring list" where
  "split_at sep cur [] = [cur]"
| "split_at sep cur (c # cs) =
     (if c = sep then cur # split_at sep [] cs else split_at sep (cur @ [c]) cs)"

definition split_newline :: "jsstring \<Rightarrow> jsstring list" where
  "split_newline s = split_at 0x0A [] s"

text \<open>
  \<open>s.split(/\s+/)\<close>: the splitter looks for a match of \<open>\s+\<close> at each position in turn.
  At a white space character the match is the whole run of white space that starts
  there (\<open>+\<close> is greedy), the piece read so far is emitted, empty or not, and reading
  resumes after the run; the piece after the last match is emitted at the end.
\<close>

function split_whitespace :: "jsstring \<Rightarrow> jsstring \<Rightarrow> jsstring list" where
  "split_whitespace cur [] = [cur]"
| "split_whitespace cur (c # cs) =
     (if isWhiteSpace c then cur # split_whitespace [] (dropWhile isWhiteSpace cs)
      else split_whitespace (cur @ [c]) cs)"
  by pat_completeness auto
termination
  by (relation "measure (\<lambda>(cur, s). length s)")
     (auto simp: length_dropWhile_le less_Suc_eq_le)

section \<open>Text statistics\<close>

text \<open>
  \<open>updateStats\<close> and \<open>saveToLocalStorage\<close> compute the three counters with the same
  three expressions:
  \<^verbatim>\<open>
    const chars = text.length;
    const words = text.trim() === '' ? 0 : text.trim().split(/\s+/).length;
    const lines = text === '' ? 0 : text.split('\n').length;
  \<close>
\<close>

record stats =
  chars :: nat
  words :: nat
  lines :: nat

definition count_chars :: "jsstring \<Rightarrow> nat" where
  "count_chars text = length text"

definition count_words :: "jsstring \<Rightarrow> nat" where
  "count_words text =
     (if trim text = [] then 0 else length (split_whitespace [] (trim text)))"

definition count_lines :: "jsstring \<Rightarrow> nat" where
  "count_lines text = (if text = [] then 0 else length (split_newline text))"

definition text_stats :: "jsstring \<Rightarrow> stats" where
  "text_stats text =
     \<lparr>chars = count_chars text, words = count_words text, lines = count_lines text\<rparr>"

text \<open>
  The word count as the specification words it: the maximal white-space-delimited
  non-empty tokens. \<open>ws_fields\<close> cuts the text at every single white space character,
  and the tokens are the pieces that are not empty.
\<close>

fun ws_fields :: "jsstring \<Rightarrow> jsstring \<Rightarrow> jsstring list" where
  "ws_fields cur [] = [cur]"
| "ws_fields cur (c # cs) =
     (if isWhiteSpace c then cur # ws_fields [] cs else ws_fields (cur @ [c]) cs)"

definition tokens :: "jsstring \<Rightarrow> jsstring list" where
  "tokens s = filter (\<lambda>t. t \<noteq> []) (ws_fields [] s)"

section \<open>Errors\<close>

text \<open>
  A JavaScript operation either completes normally or throws. The model returns
  \<open>Inr\<close> of the result, or \<open>Inl\<close> of the error thrown.
\<close>

datatype js_error = TypeError | SyntaxError | QuotaExceededError | SecurityError

section \<open>Removing indentation\<close>

text \<open>
  \<^verbatim>\<open>
    removeIndentation(start, end) {
        const value = this.textArea.value;
        const lines = value.split('\n');
        const startLine = value.substring(0, start).split('\n').length - 1;
        const endLine = value.substring(0, end).split('\n').length - 1;
        for (let i = startLine; i <= endLine; i++) {
            if (lines[i].startsWith('\t')) {
                lines[i] = lines[i].substring(1);
            } else if (lines[i].startsWith('    ')) {
                lines[i] = lines[i].substring(4);
            }
        }
  \<close>
  \<open>start\<close> and \<open>end\<close> are the selection offsets of the text area, natural numbers.
  \<open>value.substring(0, n)\<close> is the prefix of length \<open>n\<close>, the whole string when \<open>n\<close> is
  beyond its end. Reading \<open>lines[i]\<close> beyond the array gives \<open>undefined\<close>, on which
  \<open>startsWith\<close> throws a TypeError. The source file ends inside the statement after the
  loop, which assigns the joined lines to the text area, so the model is the array
  \<open>lines\<close> as the loop leaves it.
\<close>

definition startsWith :: "jsstring \<Rightarrow> jsstring \<Rightarrow> bool" where
  "startsWith s p \<longleftrightarrow> take (length p) s = p"

definition unindent_line :: "jsstring \<Rightarrow> jsstring" where
  "unindent_line l =
     (if startsWith l [0x09] then drop 1 l
      else if startsWith l (js ''    '') then drop 4 l
      else l)"

function unindent_from :: "nat \<Rightarrow> nat \<Rightarrow> jsstring list \<Rightarrow> js_error + jsstring list" where
  "unindent_from i endLine lns =
     (if i \<le> endLine then
        (if i < length lns then unindent_from (i + 1) endLine (lns[i := unindent_line (lns ! i)])
         else Inl TypeError)
      else Inr lns)"
  by pat_completeness auto
termination
  by (relation "measure (\<lambda>(i, endLine, lns). Suc endLine - i)") auto

declare unindent_from.simps [simp del]

definition line_of :: "jsstring \<Rightarrow> nat \<Rightarrow> nat" where
  "line_of val pos = length (split_newline (take pos val)) - 1"

definition removeIndentation :: "nat \<Rightarrow> nat \<Rightarrow> jsstring \<Rightarrow> js_error + jsstring list" where
  "removeIndentation start end val =
     unindent_from (line_of val start) (line_of val end) (split_newline val)"

text \<open>
  The transformation of one line as the specification words it: one leading tab is
  stripped, otherwise up to four leading spaces are.
\<close>

definition spec_unindent_line :: "jsstring \<Rightarrow> jsstring" where
  "spec_unindent_line l =
     (if startsWith l [0x09] then drop 1 l
      else drop (min 4 (length (takeWhile (\<lambda>c. c = 0x20) l))) l)"

section \<open>JSON\<close>

text \<open>
  \<open>JSON.stringify\<close> and \<open>JSON.parse\<close> belong to the JavaScript platform, not to the
  repository; they are modelled after ECMA-262 and ECMA-404 on code units. A number keeps
  the text of its literal: \<open>JSON.parse\<close> turns it into an IEEE double, and the few places
  where the value of that double matters take it from the \<open>platform\<close> record below. An
  object keeps its members in source order; a lookup takes the last member of a name, as
  a duplicate key overwrites the earlier one.
\<close>

datatype json =
    JNull
  | JBool bool
  | JNumber jsstring
  | JString jsstring
  | JArray "json list"
  | JObject "(jsstring \<times> json) list"

text \<open>
  \<open>QuoteJSONString\<close>: the seven characters of the escape table get their two-character
  escape, other code units below \<open>0x20\<close> and lone surrogates get \<open>\uXXXX\<close> with lower-case
  hexadecimal digits, a surrogate pair and every other code unit are copied.
\<close>

definition hex_digit :: "nat \<Rightarrow> unit16" where
  "hex_digit n = (if n < 10 then 0x30 + of_nat n else 0x61 + of_nat (n - 10))"

definition unicode_escape :: "unit16 \<Rightarrow> jsstring" where
  "unicode_escape c =
     [0x5C, 0x75, hex_digit (unat c div 4096), hex_digit (unat c div 256 mod 16),
      hex_digit (unat c div 16 mod 16), hex_digit (unat c mod 16)]"

definition is_lead :: "unit16 \<Rightarrow> bool" where
  "is_lead c \<longleftrightarrow> 0xD800 \<le> c \<and> c \<le> 0xDBFF"

definition is_trail :: "unit16 \<Rightarrow> bool" where
  "is_trail c \<longleftrightarrow> 0xDC00 \<le> c \<and> c \<le> 0xDFFF"

definition short_escape :: "unit16 \<Rightarrow> unit16 option" where
  "short_escape c =
     (if c = 0x08 then Some 0x62
      else if c = 0x09 then Some 0x74
      else if c = 0x0A then Some 0x6E
      else if c = 0x0C then Some 0x66
      else if c = 0x0D then Some 0x72
      else if c = 0x22 then Some 0x22
      else if c = 0x5C then Some 0x5C
      else None)"

fun quote_units :: "jsstring \<Rightarrow> jsstring" where
  "quote_units [] = []"
| "quote_units (c # cs) =
     (case short_escape c of
        Some e \<Rightarrow> [0x5C, e] @ quote_units cs
      | None \<Rightarrow>
          if c < 0x20 then unicode_escape c @ quote_units cs
          else if is_lead c then
            (case cs of
               [] \<Rightarrow> unicode_escape c
             | d # ds \<Rightarrow> if is_trail d then c # d # quote_units ds
                        else unicode_escape c @ quote_units cs)
          else if is_trail c then unicode_escape c @ quote_units cs
          else c # quote_units cs)"

definition QuoteJSONString :: "jsstring \<Rightarrow> jsstring" where
  "QuoteJSONString s = [0x22] @ quote_units s @ [0x22]"

text \<open>
  The counters are array lengths, non-negative integers, which print as their decimal
  digits.
\<close>

fun decimal :: "nat \<Rightarrow> jsstring" where
  "decimal n = (if n < 10 then [0x30 + of_nat n] else decimal (n div 10) @ [0x30 + of_nat (n mod 10)])"

declare decimal.simps [simp del]

text \<open>\<open>Array.prototype.join\<close> on strings, also the way a serialiser separates members.\<close>

fun join :: "jsstring \<Rightarrow> jsstring list \<Rightarrow> jsstring" where
  "join sep [] = []"
| "join sep [x] = x"
| "join sep (x # y # ys) = x @ sep @ join sep (y # ys)"

fun JSON_stringify :: "json \<Rightarrow> jsstring" where
  "JSON_stringify JNull = js ''null''"
| "JSON_stringify (JBool b) = (if b then js ''true'' else js ''false'')"
| "JSON_stringify (JNumber l) = l"
| "JSON_stringify (JString s) = QuoteJSONString s"
| "JSON_stringify (JArray xs) = js ''['' @ join (js '','') (map JSON_stringify xs) @ js '']''"
| "JSON_stringify (JObject kvs) =
     js ''{'' @ join (js '','') (map (\<lambda>(k, v). QuoteJSONString k @ js '':'' @ JSON_stringify v) kvs) @ js ''}''"

text \<open>
  \<open>JSON.parse\<close> in two passes: the text is cut into tokens, and the tokens are read by
  a pushdown automaton. Both are total functions; \<open>None\<close> is the SyntaxError.
\<close>

datatype token =
    TLBrace | TRBrace | TLBracket | TRBracket | TColon | TComma
  | TString jsstring | TNumber jsstring | TTrue | TFalse | TNull

definition hex_value :: "unit16 \<Rightarrow> nat option" where
  "hex_value c =
     (if 0x30 \<le> c \<and> c \<le> 0x39 then Some (unat c - 0x30)
      else if 0x61 \<le> c \<and> c \<le> 0x66 then Some (unat c - 0x61 + 10)
      else if 0x41 \<le> c \<and> c \<le> 0x46 then Some (unat c - 0x41 + 10)
      else None)"

definition hex4 :: "unit16 \<Rightarrow> unit16 \<Rightarrow> unit16 \<Rightarrow> unit16 \<Rightarrow> unit16 option" where
  "hex4 a b c d =
     (case (hex_value a, hex_value b, hex_value c, hex_value d) of
        (Some x, Some y, Some z, Some w) \<Rightarrow> Some (of_nat (((x * 16 + y) * 16 + z) * 16 + w))
      | _ \<Rightarrow> None)"

definition unescape :: "unit16 \<Rightarrow> unit16 option" where
  "unescape e =
     (if e = 0x22 then Some 0x22
      else if e = 0x5C then Some 0x5C
      else if e = 0x2F then Some 0x2F
      else if e = 0x62 then Some 0x08
      else if e = 0x66 then Some 0x0C
      else if e = 0x6E then Some 0x0A
      else if e = 0x72 then Some 0x0D
      else if e = 0x74 then Some 0x09
      else None)"

text \<open>
  One character of a string literal after the opening quote: a two-character escape,
  \<open>\uXXXX\<close> with four hexadecimal digits of either case, or a code unit that is neither a
  backslash nor a control character. The result is the code unit and the rest of the text.
\<close>

definition string_char :: "jsstring \<Rightarrow> (unit16 \<times> jsstring) option" where
  "string_char s =
     (case s of
        [] \<Rightarrow> None
      | c # cs \<Rightarrow>
          if c = 0x5C then
            (case cs of
               [] \<Rightarrow> None
             | e # r \<Rightarrow>
                 if e = 0x75 then
                   (case r of
                      h1 # h2 # h3 # h4 # r' \<Rightarrow> map_option (\<lambda>u. (u, r')) (hex4 h1 h2 h3 h4)
                    | _ \<Rightarrow> None)
                 else map_option (\<lambda>u. (u, r)) (unescape e))
          else if c < 0x20 then None
          else Some (c, cs))"

function lex_string :: "jsstring \<Rightarrow> (jsstring \<times> jsstring) option" where
  "lex_string s =
     (case s of
        [] \<Rightarrow> None
      | c # cs \<Rightarrow>
          if c = 0x22 then Some ([], cs)
          else
            (case string_char s of
               None \<Rightarrow> None
             | Some (u, rest) \<Rightarrow>
                 (case lex_string rest of
                    None \<Rightarrow> None
                  | Some (str, rest') \<Rightarrow> Some (u # str, rest'))))"
  by pat_completeness auto
termination
proof (relation "measure length")
  show "wf (measure length)" by simp
next
  fix s :: jsstring and c cs x u rest
  assume "s = c # cs" and "string_char s = Some x" and "(u, rest) = x"
  then have "string_char s = Some (u, rest)" by simp
  then have "length rest < length s"
    by (auto simp: string_char_def split: list.splits if_splits)
  then show "(rest, s) \<in> measure length" by simp
qed

declare lex_string.simps [simp del]

text \<open>
  A number: an optional minus, \<open>0\<close> or a digit string without leading zero, an optional
  fraction, an optional exponent. The result is the literal and the rest of the text.
\<close>

definition is_digit :: "unit16 \<Rightarrow> bool" where
  "is_digit c \<longleftrightarrow> 0x30 \<le> c \<and> c \<le> 0x39"

definition lex_exponent :: "jsstring \<Rightarrow> jsstring \<Rightarrow> (jsstring \<times> jsstring) option" where
  "lex_exponent acc s =
     (case s of
        [] \<Rightarrow> Some (acc, s)
      | e # r \<Rightarrow>
          if e = 0x65 \<or> e = 0x45 then
            (let sign = (case r of [] \<Rightarrow> [] | g # _ \<Rightarrow> if g = 0x2B \<or> g = 0x2D then [g] else []);
                 r' = drop (length sign) r
             in if takeWhile is_digit r' = [] then None
                else Some (acc @ [e] @ sign @ takeWhile is_digit r', dropWhile is_digit r'))
          else Some (acc, s))"

definition lex_fraction :: "jsstring \<Rightarrow> jsstring \<Rightarrow> (jsstring \<times> jsstring) option" where
  "lex_fraction acc s =
     (case s of
        [] \<Rightarrow> Some (acc, s)
      | p # r \<Rightarrow>
          if p = 0x2E then
            (if takeWhile is_digit r = [] then None
             else lex_exponent (acc @ [p] @ takeWhile is_digit r) (dropWhile is_digit r))
          else lex_exponent acc s)"

definition lex_number :: "jsstring \<Rightarrow> (jsstring \<times> jsstring) option" where
  "lex_number s =
     (let sign = (case s of [] \<Rightarrow> [] | g # _ \<Rightarrow> if g = 0x2D then [g] else []);
          s' = drop (length sign) s
      in case s' of
           [] \<Rightarrow> None
         | d # r \<Rightarrow>
             if d = 0x30 then lex_fraction (sign @ [d]) r
             else if is_digit d then
               lex_fraction (sign @ [d] @ takeWhile is_digit r) (dropWhile is_digit r)
             else None)"

text \<open>JSON white space is TAB, LF, CR and SPACE only.\<close>

definition is_json_space :: "unit16 \<Rightarrow> bool" where
  "is_json_space c \<longleftrightarrow> c = 0x09 \<or> c = 0x0A \<or> c = 0x0D \<or> c = 0x20"

definition punctuation :: "unit16 \<Rightarrow> token option" where
  "punctuation c =
     (if c = 0x7B then Some TLBrace
      else if c = 0x7D then Some TRBrace
      else if c = 0x5B then Some TLBracket
      else if c = 0x5D then Some TRBracket
      else if c = 0x3A then Some TColon
      else if c = 0x2C then Some TComma
      else None)"

definition next_token :: "jsstring \<Rightarrow> (token \<times> jsstring) option" where
  "next_token s =
     (case s of
        [] \<Rightarrow> None
      | c # cs \<Rightarrow>
          (case punctuation c of
             Some t \<Rightarrow> Some (t, cs)
           | None \<Rightarrow>
               if c = 0x22 then map_option (\<lambda>(str, rest). (TString str, rest)) (lex_string cs)
               else if c = 0x2D \<or> is_digit c then
                 map_option (\<lambda>(l, rest). (TNumber l, rest)) (lex_number s)
               else if startsWith s (js ''true'') then Some (TTrue, drop 4 s)
               else if startsWith s (js ''false'') then Some (TFalse, drop 5 s)
               else if startsWith s (js ''null'') then Some (TNull, drop 4 s)
               else None))"

function lex_json :: "jsstring \<Rightarrow> token list option" where
  "lex_json s =
     (case dropWhile is_json_space s of
        [] \<Rightarrow> Some []
      | c # cs \<Rightarrow>
          (case next_token (c # cs) of
             None \<Rightarrow> None
           | Some (t, rest) \<Rightarrow> map_option ((#) t) (lex_json rest)))"
  by pat_completeness auto
termination
proof (relation "measure length")
  show "wf (measure length)" by simp
next
  fix s :: jsstring and c cs x t rest
  assume d: "dropWhile is_json_space s = c # cs"
    and n: "next_token (c # cs) = Some x" and x: "(t, rest) = x"
  have str: "length r < length u" if "lex_string u = Some (v, r)" for u v r
    using that
  proof (induction u arbitrary: v r rule: lex_string.induct)
    case (1 u)
    show ?case
    proof (cases u)
      case Nil
      with "1.prems" show ?thesis by (simp add: lex_string.simps)
    next
      case (Cons a u')
      show ?thesis
      proof (cases "a = 0x22")
        case True
        with Cons "1.prems" show ?thesis by (simp add: lex_string.simps)
      next
        case False
        with Cons "1.prems" obtain w rest0 str0 where
          sc: "string_char u = Some (w, rest0)" and ls: "lex_string rest0 = Some (str0, r)"
          by (subst (asm) lex_string.simps) (auto split: option.splits)
        from sc have "length rest0 < length u"
          by (auto simp: string_char_def split: list.splits if_splits)
        moreover have "length r < length rest0"
          using "1.IH"[OF Cons False sc refl ls] .
        ultimately show ?thesis by simp
      qed
    qed
  qed
  have dw: "k \<le> length u" if "k \<le> length (dropWhile is_digit u)" for k u
    using that length_dropWhile_le[of is_digit u] by simp
  have dw0: "length (dropWhile is_digit u) \<le> length u + k" for k u
    using length_dropWhile_le[of is_digit u] by simp
  have ex: "length r \<le> length u" if "lex_exponent acc u = Some (v, r)" for acc u v r
    using that dw0[of _ 0] dw0[of _ 1] dw0[of _ 2]
    by (auto simp: lex_exponent_def Let_def split: list.splits if_splits)
  have fr: "length r \<le> length u" if "lex_fraction acc u = Some (v, r)" for acc u v r
    using that
    by (auto simp: lex_fraction_def le_SucI split: list.splits if_splits dest!: ex dw)
  have num: "length r < length u" if "lex_number u = Some (v, r)" for u v r
    using that
    by (auto simp: lex_number_def Let_def less_Suc_eq_le le_SucI
        split: list.splits if_splits dest!: fr dw)
  from n x have "next_token (c # cs) = Some (t, rest)" by simp
  then have "length rest < length (c # cs)"
    by (auto simp: next_token_def startsWith_def split: option.splits if_splits dest!: str num)
  also have "\<dots> \<le> length s"
    using d length_dropWhile_le[of is_json_space s] by simp
  finally show "(rest, s) \<in> measure length" by simp
qed

declare lex_json.simps [simp del]

text \<open>
  The automaton keeps a stack of the arrays and objects that are open, each with the
  elements or members read so far (an object also with the key that awaits its value),
  and what it expects next. A value that completes with an empty stack is the result, and
  any token after it is an error.
\<close>

datatype frame = FArray "json list" | FObject "(jsstring \<times> json) list" "jsstring option"

datatype expect = Value | ValueOrEnd | KeyOrEnd | Key | Colon | CommaOrEnd

datatype pstate = Parsing expect "frame list" | Complete json

fun deliver :: "json \<Rightarrow> frame list \<Rightarrow> pstate option" where
  "deliver v [] = Some (Complete v)"
| "deliver v (FArray xs # st) = Some (Parsing CommaOrEnd (FArray (xs @ [v]) # st))"
| "deliver v (FObject kvs (Some k) # st) =
     Some (Parsing CommaOrEnd (FObject (kvs @ [(k, v)]) None # st))"
| "deliver v (FObject kvs None # st) = None"

fun start_value :: "token \<Rightarrow> frame list \<Rightarrow> pstate option" where
  "start_value TLBrace st = Some (Parsing KeyOrEnd (FObject [] None # st))"
| "start_value TLBracket st = Some (Parsing ValueOrEnd (FArray [] # st))"
| "start_value (TString s) st = deliver (JString s) st"
| "start_value (TNumber l) st = deliver (JNumber l) st"
| "start_value TTrue st = deliver (JBool True) st"
| "start_value TFalse st = deliver (JBool False) st"
| "start_value TNull st = deliver JNull st"
| "start_value _ st = None"

fun set_key :: "token \<Rightarrow> frame list \<Rightarrow> pstate option" where
  "set_key (TString k) (FObject kvs None # st) = Some (Parsing Colon (FObject kvs (Some k) # st))"
| "set_key _ _ = None"

fun close_frame :: "token \<Rightarrow> frame list \<Rightarrow> pstate option" where
  "close_frame TRBracket (FArray xs # st) = deliver (JArray xs) st"
| "close_frame TRBrace (FObject kvs None # st) = deliver (JObject kvs) st"
| "close_frame _ _ = None"

fun after_value :: "token \<Rightarrow> frame list \<Rightarrow> pstate option" where
  "after_value TComma (FArray xs # st) = Some (Parsing Value (FArray xs # st))"
| "after_value TComma (FObject kvs None # st) = Some (Parsing Key (FObject kvs None # st))"
| "after_value t st = close_frame t st"

fun parse_step :: "pstate \<Rightarrow> token \<Rightarrow> pstate option" where
  "parse_step (Complete v) t = None"
| "parse_step (Parsing Value st) t = start_value t st"
| "parse_step (Parsing ValueOrEnd st) t =
     (if t = TRBracket then close_frame t st else start_value t st)"
| "parse_step (Parsing KeyOrEnd st) t =
     (if t = TRBrace then close_frame t st else set_key t st)"
| "parse_step (Parsing Key st) t = set_key t st"
| "parse_step (Parsing Colon st) t = (if t = TColon then Some (Parsing Value st) else None)"
| "parse_step (Parsing CommaOrEnd st) t = after_value t st"

fun parse_tokens :: "pstate \<Rightarrow> token list \<Rightarrow> json option" where
  "parse_tokens (Complete v) [] = Some v"
| "parse_tokens (Parsing e st) [] = None"
| "parse_tokens ps (t # ts) =
     (case parse_step ps t of None \<Rightarrow> None | Some ps' \<Rightarrow> parse_tokens ps' ts)"

definition JSON_parse :: "jsstring \<Rightarrow> json option" where
  "JSON_parse text =
     (case lex_json text of None \<Rightarrow> None | Some ts \<Rightarrow> parse_tokens (Parsing Value []) ts)"

text \<open>The characters that may follow a number literal without being part of it.\<close>

definition ends_number :: "unit16 \<Rightarrow> bool" where
  "ends_number c \<longleftrightarrow> \<not> is_digit c \<and> c \<noteq> 0x2E \<and> c \<noteq> 0x65 \<and> c \<noteq> 0x45"

section \<open>The persisted record\<close>

text \<open>
  The object literal of \<open>saveToLocalStorage\<close>:
  \<^verbatim>\<open>
    const data = {
        content: content,
        timestamp: timestamp,
        stats: {
            chars: content.length,
            words: content.trim() === '' ? 0 : content.trim().split(/\s+/).length,
            lines: content === '' ? 0 : content.split('\n').length
        }
    };
  \<close>
\<close>

definition saved_data :: "jsstring \<Rightarrow> jsstring \<Rightarrow> json" where
  "saved_data content timestamp =
     JObject
       [(js ''content'', JString content),
        (js ''timestamp'', JString timestamp),
        (js ''stats'',
           JObject
             [(js ''chars'', JNumber (decimal (count_chars content))),
              (js ''words'', JNumber (decimal (count_words content))),
              (js ''lines'', JNumber (decimal (count_lines content)))])]"

section \<open>Browser storage and the state of the application\<close>

text \<open>
  A method of the application changes the state and either completes or throws.
  \<open>Throws e s\<close> carries the state reached when \<open>e\<close> was thrown, which is the state a
  \<open>catch\<close> block continues from.
\<close>

datatype 'a outcome = Normal 'a | Throws js_error 'a


text \<open>
  \<open>window.localStorage\<close>. The browser may refuse every access (storage disabled: a
  SecurityError) and may refuse a write (quota exceeded); both are the browser's choice,
  so they are fields of the store. When access is refused it is the read of the
  \<open>localStorage\<close> property that throws, before \<open>getItem\<close> or \<open>setItem\<close> is called.
  \<open>writes\<close> records every \<open>setItem(k, v)\<close> the store executes, whether it then accepts
  the value or refuses it for the quota.
\<close>

record storage =
  items :: "jsstring \<rightharpoonup> jsstring"
  accessible :: bool
  full_for :: "jsstring \<Rightarrow> jsstring \<Rightarrow> bool"
  writes :: "(jsstring \<times> jsstring) list"

definition getItem :: "jsstring \<Rightarrow> storage \<Rightarrow> js_error + jsstring option" where
  "getItem k st = (if accessible st then Inr (items st k) else Inl SecurityError)"

definition setItem :: "jsstring \<Rightarrow> jsstring \<Rightarrow> storage \<Rightarrow> storage outcome" where
  "setItem k v st =
     (if \<not> accessible st then Throws SecurityError st
      else
        (let st' = st\<lparr>writes := writes st @ [(k, v)]\<rparr>
         in if full_for st k v then Throws QuotaExceededError st'
            else Normal (st'\<lparr>items := (items st)(k \<mapsto> v)\<rparr>)))"

text \<open>
  What the model takes from the platform: the ISO-8601 text of a time value
  (\<open>new Date(t).toISOString()\<close>), the time value of a date string (\<open>Date.parse\<close>,
  \<open>None\<close> for NaN), and for a number literal whether its double is zero, its
  \<open>ToString\<close> and its time value as a date. Times are milliseconds.
\<close>

record platform =
  toISOString :: "int \<Rightarrow> jsstring"
  Date_parse :: "jsstring \<Rightarrow> int option"
  number_is_zero :: "jsstring \<Rightarrow> bool"
  number_to_string :: "jsstring \<Rightarrow> jsstring"
  number_time :: "jsstring \<Rightarrow> int option"

text \<open>
  The text area. Assigning to \<open>textArea.value\<close> sets the raw value of the element, and
  reading it gives the raw value with newlines normalised, as HTML defines it: every
  CR LF pair and every other CR becomes LF.
\<close>

fun normalize_newlines :: "jsstring \<Rightarrow> jsstring" where
  "normalize_newlines [] = []"
| "normalize_newlines [c] = (if c = 0x0D then [0x0A] else [c])"
| "normalize_newlines (c # d # cs) =
     (if c = 0x0D then
        (if d = 0x0A then 0x0A # normalize_newlines cs else 0x0A # normalize_newlines (d # cs))
      else c # normalize_newlines (d # cs))"

text \<open>
  The callbacks the program hands to timers: the two arrow functions of
  \<open>handleTextInput\<close> (typing indicator off after 1 s, save after 2 s), the one of
  \<open>handlePaste\<close> (statistics and save after 10 ms) and the one of \<open>startAutoSave\<close> (save
  every 30 s). A pending timer has an id, the time it is due, the period when it was set
  with \<open>setInterval\<close>, and its callback.
\<close>

datatype callback = TypingOff | AutoSave | PasteSave | IntervalSave

record timer =
  tid :: nat
  due :: int
  every :: "int option"
  action :: callback

text \<open>
  The state: the raw value of the text area, the counters last handed to the counter
  elements, the last status message and its type, the labels written with
  \<open>console.error\<close>, the typing flag, the number of confirmation dialogs shown so far, the
  store, the clock, and the timers. \<open>typingTimer\<close>, \<open>autoSaveTimer\<close> and
  \<open>autoSaveInterval\<close> hold a timer id or nothing; \<open>pending\<close> is the browser's list of
  timers, in firing order. \<open>ran\<close> is the record the event loop keeps of the callbacks it
  has run: the callback, the time, and the store writes made during it. The animation
  of the counters, the fading of the status message (with its own timer, which touches
  neither the text nor the store) and the focus are not part of the state.
\<close>

record app =
  textArea_raw :: jsstring
  counters :: stats
  status :: "(jsstring \<times> jsstring) option"
  console :: "jsstring list"
  isTyping :: bool
  confirms :: nat
  localStorage :: storage
  clock :: int
  typingTimer :: "nat option"
  autoSaveTimer :: "nat option"
  autoSaveInterval :: "nat option"
  pending :: "timer list"
  next_timer :: nat
  ran :: "(callback \<times> int \<times> (jsstring \<times> jsstring) list) list"

definition textArea_value :: "app \<Rightarrow> jsstring" where
  "textArea_value s = normalize_newlines (textArea_raw s)"

definition set_textArea_value :: "jsstring \<Rightarrow> app \<Rightarrow> app" where
  "set_textArea_value v s = s\<lparr>textArea_raw := v\<rparr>"

definition updateStats :: "app \<Rightarrow> app" where
  "updateStats s = s\<lparr>counters := text_stats (textArea_value s)\<rparr>"

definition showStatus :: "jsstring \<Rightarrow> jsstring \<Rightarrow> app \<Rightarrow> app" where
  "showStatus message type s = s\<lparr>status := Some (message, type)\<rparr>"

definition console_error :: "jsstring \<Rightarrow> app \<Rightarrow> app" where
  "console_error label s = s\<lparr>console := console s @ [label]\<rparr>"

section \<open>Saving\<close>

text \<open>
  \<^verbatim>\<open>
    saveToLocalStorage() {
        try {
            const content = this.textArea.value;
            const timestamp = new Date().toISOString();
            const data = { ... };
            localStorage.setItem('sam-text-content', JSON.stringify(data));
        } catch (error) {
            console.error('Error saving to localStorage:', error);
        }
    }
  \<close>
  \<open>save_attempt\<close> is the \<open>try\<close> block, \<open>saveToLocalStorage\<close> the whole method.
\<close>

definition storage_key :: jsstring where
  "storage_key = js ''sam-text-content''"

definition save_attempt :: "platform \<Rightarrow> app \<Rightarrow> app outcome" where
  "save_attempt p s =
     (let content = textArea_value s;
          timestamp = toISOString p (clock s);
          data = saved_data content timestamp
      in case setItem storage_key (JSON_stringify data) (localStorage s) of
           Normal st \<Rightarrow> Normal (s\<lparr>localStorage := st\<rparr>)
         | Throws e st \<Rightarrow> Throws e (s\<lparr>localStorage := st\<rparr>))"

definition saveToLocalStorage :: "platform \<Rightarrow> app \<Rightarrow> app outcome" where
  "saveToLocalStorage p s =
     (case save_attempt p s of
        Normal s' \<Rightarrow> Normal s'
      | Throws e s' \<Rightarrow> Normal (console_error (js ''Error saving to localStorage:'') s'))"

section \<open>Loading\<close>

text \<open>
  \<^verbatim>\<open>
    loadSavedContent() {
        try {
            const savedData = localStorage.getItem('sam-text-content');
            if (savedData) {
                const data = JSON.parse(savedData);
                this.textArea.value = data.content || '';
                this.updateStats();
                if (data.timestamp) {
                    const lastSaved = new Date(data.timestamp);
                    const now = new Date();
                    const diffMinutes = Math.floor((now - lastSaved) / (1000 * 60));
                    if (diffMinutes < 60) {
                        this.showStatus(`Restored content from ${diffMinutes} minutes ago`, 'info');
                    }
                }
            }
        } catch (error) {
            console.error('Error loading saved content:', error);
        }
    }
  \<close>
  The parsed value can be any JSON value, so the model has JavaScript's rules for it:
  which values are falsy, the string a value turns into when it is assigned to
  \<open>textArea.value\<close> or passed to \<open>new Date\<close> (an object with a member named \<open>toString\<close>
  has no primitive value: TypeError), and property access, which throws on \<open>null\<close> and
  gives \<open>undefined\<close> (\<open>None\<close>) for a missing member. \<open>get_property\<close> is used for the names
  \<open>content\<close> and \<open>timestamp\<close> only, which no string, number, boolean or array has.
\<close>

fun truthy :: "platform \<Rightarrow> json \<Rightarrow> bool" where
  "truthy p JNull = False"
| "truthy p (JBool b) = b"
| "truthy p (JNumber l) = (\<not> number_is_zero p l)"
| "truthy p (JString s) = (s \<noteq> [])"
| "truthy p (JArray xs) = True"
| "truthy p (JObject kvs) = True"

fun ToString :: "platform \<Rightarrow> json \<Rightarrow> js_error + jsstring"
  and join_elements :: "platform \<Rightarrow> json list \<Rightarrow> js_error + jsstring list" where
  "ToString p JNull = Inr (js ''null'')"
| "ToString p (JBool b) = Inr (if b then js ''true'' else js ''false'')"
| "ToString p (JNumber l) = Inr (number_to_string p l)"
| "ToString p (JString s) = Inr s"
| "ToString p (JArray xs) =
     (case join_elements p xs of Inl e \<Rightarrow> Inl e | Inr strs \<Rightarrow> Inr (join (js '','') strs))"
| "ToString p (JObject kvs) =
     (if js ''toString'' \<in> fst ` set kvs then Inl TypeError else Inr (js ''[object Object]''))"
| "join_elements p [] = Inr []"
| "join_elements p (x # xs) =
     (case (if x = JNull then Inr [] else ToString p x) of
        Inl e \<Rightarrow> Inl e
      | Inr str \<Rightarrow> (case join_elements p xs of Inl e \<Rightarrow> Inl e | Inr strs \<Rightarrow> Inr (str # strs)))"

fun get_property :: "json \<Rightarrow> jsstring \<Rightarrow> js_error + json option" where
  "get_property JNull k = Inl TypeError"
| "get_property (JObject kvs) k = Inr (map_of (rev kvs) k)"
| "get_property _ k = Inr None"

definition or_empty :: "platform \<Rightarrow> json option \<Rightarrow> js_error + jsstring" where
  "or_empty p v =
     (case v of None \<Rightarrow> Inr [] | Some x \<Rightarrow> if truthy p x then ToString p x else Inr [])"

definition new_Date :: "platform \<Rightarrow> json \<Rightarrow> js_error + int option" where
  "new_Date p v =
     (case v of
        JNull \<Rightarrow> Inr (Some 0)
      | JBool b \<Rightarrow> Inr (Some (if b then 1 else 0))
      | JNumber l \<Rightarrow> Inr (number_time p l)
      | JString s \<Rightarrow> Inr (Date_parse p s)
      | _ \<Rightarrow> (case ToString p v of Inl e \<Rightarrow> Inl e | Inr s \<Rightarrow> Inr (Date_parse p s)))"

definition show_int :: "int \<Rightarrow> jsstring" where
  "show_int i = (if i < 0 then js ''-'' @ decimal (nat (- i)) else decimal (nat i))"

definition restore_notice :: "platform \<Rightarrow> json \<Rightarrow> app \<Rightarrow> app outcome" where
  "restore_notice p data s =
     (case get_property data (js ''timestamp'') of
        Inl e \<Rightarrow> Throws e s
      | Inr None \<Rightarrow> Normal s
      | Inr (Some t) \<Rightarrow>
          if truthy p t then
            (case new_Date p t of
               Inl e \<Rightarrow> Throws e s
             | Inr None \<Rightarrow> Normal s
             | Inr (Some lastSaved) \<Rightarrow>
                 let diffMinutes = (clock s - lastSaved) div 60000
                 in if diffMinutes < 60
                    then Normal (showStatus
                           (js ''Restored content from '' @ show_int diffMinutes @ js '' minutes ago'')
                           (js ''info'') s)
                    else Normal s)
          else Normal s)"

text \<open>
  \<open>read_saved\<close> is the \<open>try\<close> block up to the right-hand side of the assignment to
  \<open>textArea.value\<close>: the parsed data and the string to assign, nothing when the guard
  \<open>if (savedData)\<close> fails, or the error thrown. \<open>load_attempt\<close> is the \<open>try\<close> block,
  \<open>loadSavedContent\<close> the method.
\<close>

definition read_saved :: "platform \<Rightarrow> storage \<Rightarrow> js_error + (json \<times> jsstring) option" where
  "read_saved p st =
     (case getItem storage_key st of
        Inl e \<Rightarrow> Inl e
      | Inr None \<Rightarrow> Inr None
      | Inr (Some savedData) \<Rightarrow>
          if savedData = [] then Inr None
          else
            (case JSON_parse savedData of
               None \<Rightarrow> Inl SyntaxError
             | Some data \<Rightarrow>
                 (case get_property data (js ''content'') of
                    Inl e \<Rightarrow> Inl e
                  | Inr c \<Rightarrow>
                      (case or_empty p c of
                         Inl e \<Rightarrow> Inl e
                       | Inr content \<Rightarrow> Inr (Some (data, content))))))"

definition load_attempt :: "platform \<Rightarrow> app \<Rightarrow> app outcome" where
  "load_attempt p s =
     (case read_saved p (localStorage s) of
        Inl e \<Rightarrow> Throws e s
      | Inr None \<Rightarrow> Normal s
      | Inr (Some (data, content)) \<Rightarrow>
          restore_notice p data (updateStats (set_textArea_value content s)))"

definition loadSavedContent :: "platform \<Rightarrow> app \<Rightarrow> app outcome" where
  "loadSavedContent p s =
     (case load_attempt p s of
        Normal s' \<Rightarrow> Normal s'
      | Throws e s' \<Rightarrow> Normal (console_error (js ''Error loading saved content:'') s'))"

text \<open>
  The specification's \<open>restore\<close>: the content of the document that \<open>loadSavedContent\<close>
  puts into the text area, as the text area then holds it, or absent (\<open>None\<close>) when it
  assigns nothing.
\<close>

definition restore :: "platform \<Rightarrow> storage \<Rightarrow> jsstring option" where
  "restore p st =
     (case read_saved p st of
        Inr (Some (data, content)) \<Rightarrow> Some (normalize_newlines content)
      | _ \<Rightarrow> None)"

section \<open>Clearing\<close>

text \<open>
  \<^verbatim>\<open>
    clearContent() {
        if (this.textArea.value.trim() === '') {
            this.showStatus('Text area is already empty', 'info');
            return;
        }
        if (confirm('Are you sure you want to clear all text? This action cannot be undone.')) {
            this.textArea.value = '';
            this.textArea.focus();
            this.updateStats();
            this.saveToLocalStorage();
            this.showStatus('Content cleared', 'success');
        }
    }
  \<close>
  \<open>answer\<close> is what the user replies if the dialog is shown.
\<close>

definition clearContent :: "platform \<Rightarrow> bool \<Rightarrow> app \<Rightarrow> app outcome" where
  "clearContent p answer s =
     (if trim (textArea_value s) = [] then
        Normal (showStatus (js ''Text area is already empty'') (js ''info'') s)
      else
        (let s1 = s\<lparr>confirms := confirms s + 1\<rparr>
         in if answer then
              (case saveToLocalStorage p (updateStats (set_textArea_value [] s1)) of
                 Normal s2 \<Rightarrow> Normal (showStatus (js ''Content cleared'') (js ''success'') s2)
               | Throws e s2 \<Rightarrow> Throws e s2)
            else Normal s1))"

section \<open>Timers and events\<close>


fun insert_timer :: "timer \<Rightarrow> timer list \<Rightarrow> timer list" where
  "insert_timer t [] = [t]"
| "insert_timer t (u # us) = (if due u \<le> due t then u # insert_timer t us else t # u # us)"

definition add_timer :: "int option \<Rightarrow> callback \<Rightarrow> int \<Rightarrow> app \<Rightarrow> nat \<times> app" where
  "add_timer period cb delay s =
     (next_timer s,
      s\<lparr>pending :=
          insert_timer \<lparr>tid = next_timer s, due = clock s + delay, every = period, action = cb\<rparr>
            (pending s),
        next_timer := next_timer s + 1\<rparr>)"


definition setInterval :: "callback \<Rightarrow> int \<Rightarrow> app \<Rightarrow> nat \<times> app" where
  "setInterval cb delay s = add_timer (Some delay) cb delay s"




definition startAutoSave :: "app \<Rightarrow> app" where
  "startAutoSave s = (let (i, s') = setInterval IntervalSave 30000 s in s'\<lparr>autoSaveInterval := Some i\<rparr>)"
















section \<open>Example states\<close>

text \<open>
  A platform, an empty store that accepts every write, the state the constructor leaves
  with a given text and store, and that state once \<open>startAutoSave\<close> has run, which is how
  the application starts.
\<close>

definition example_platform :: platform where
  "example_platform =
     \<lparr>toISOString = show_int, Date_parse = (\<lambda>s. None), number_is_zero = (\<lambda>l. l = js ''0''),
      number_to_string = (\<lambda>l. l), number_time = (\<lambda>l. None)\<rparr>"

definition empty_storage :: storage where
  "empty_storage = \<lparr>items = Map.empty, accessible = True, full_for = (\<lambda>k v. False), writes = []\<rparr>"

definition constructed :: "jsstring \<Rightarrow> storage \<Rightarrow> app" where
  "constructed text st =
     \<lparr>textArea_raw = text, counters = \<lparr>chars = 0, words = 0, lines = 0\<rparr>, status = None,
      console = [], isTyping = False, confirms = 0, localStorage = st, clock = 0,
      typingTimer = None, autoSaveTimer = None, autoSaveInterval = None, pending = [],
      next_timer = 1, ran = []\<rparr>"

definition initial_app :: "jsstring \<Rightarrow> storage \<Rightarrow> app" where
  "initial_app text st = startAutoSave (constructed text st)"

section \<open>Invariants of the timers\<close>







section \<open>Properties of the statistics\<close>

lemma length_split_at: "length (split_at sep cur s) = count_list s sep + 1"
  by (induction s arbitrary: cur) auto

lemma last_dropWhile: "dropWhile P xs \<noteq> [] \<Longrightarrow> last (dropWhile P xs) = last xs"
  by (metis last_appendR takeWhile_dropWhile_id)

lemma ws_fields_dropWhile:
  "filter (\<lambda>t. t \<noteq> []) (ws_fields [] (dropWhile isWhiteSpace s)) =
   filter (\<lambda>t. t \<noteq> []) (ws_fields [] s)"
  by (induction s) auto

lemma split_whitespace_tokens:
  "filter (\<lambda>t. t \<noteq> []) (split_whitespace cur s) = filter (\<lambda>t. t \<noteq> []) (ws_fields cur s)"
  by (induction cur s rule: split_whitespace.induct) (auto simp: ws_fields_dropWhile)

text \<open>
  A text that neither starts nor ends with white space is split into non-empty pieces
  only. The statement is generalised over the piece being read.
\<close>

lemma split_whitespace_nonempty:
  "cur \<noteq> [] \<or> (s \<noteq> [] \<and> \<not> isWhiteSpace (hd s)) \<Longrightarrow> s = [] \<or> \<not> isWhiteSpace (last s) \<Longrightarrow>
   [] \<notin> set (split_whitespace cur s)"
proof (induction cur s rule: split_whitespace.induct)
  case (1 cur)
  then show ?case by simp
next
  case (2 cur c cs)
  show ?case
  proof (cases "isWhiteSpace c")
    case True
    with "2.prems"(2) have cs: "cs \<noteq> []" "\<not> isWhiteSpace (last cs)" by (auto split: if_splits)
    then have ex: "\<exists>x\<in>set cs. \<not> isWhiteSpace x" using last_in_set by blast
    then have d: "dropWhile isWhiteSpace cs \<noteq> []" by simp
    have h: "\<not> isWhiteSpace (hd (dropWhile isWhiteSpace cs))" using d hd_dropWhile by blast
    have l: "last (dropWhile isWhiteSpace cs) = last cs"
      using d by (rule last_dropWhile)
    from True "2.prems"(1) have "cur \<noteq> []" by simp
    moreover have "[] \<notin> set (split_whitespace [] (dropWhile isWhiteSpace cs))"
      using "2.IH"(1)[OF True] d h l cs by simp
    ultimately show ?thesis using True by simp
  next
    case False
    have "[] \<notin> set (split_whitespace (cur @ [c]) cs)"
      using "2.IH"(2)[OF False] "2.prems"(2) by (auto split: if_splits)
    then show ?thesis using False by simp
  qed
qed

lemma trim_hd: "trim s \<noteq> [] \<Longrightarrow> \<not> isWhiteSpace (hd (trim s))"
proof -
  assume a: "trim s \<noteq> []"
  let ?d = "dropWhile isWhiteSpace s"
  from a have n: "dropWhile isWhiteSpace (rev ?d) \<noteq> []" by (simp add: trim_def)
  then have d: "?d \<noteq> []" by (metis dropWhile.simps(1) rev.simps(1))
  have "hd (trim s) = last (dropWhile isWhiteSpace (rev ?d))"
    using n by (simp add: trim_def hd_rev)
  also have "\<dots> = last (rev ?d)" using n by (rule last_dropWhile)
  also have "\<dots> = hd ?d" using d by (simp add: last_rev)
  finally show ?thesis using d hd_dropWhile by metis
qed

lemma trim_last: "trim s \<noteq> [] \<Longrightarrow> \<not> isWhiteSpace (last (trim s))"
  unfolding trim_def by (simp add: last_rev hd_dropWhile)

lemma trim_all_whitespace: "trim s = [] \<longleftrightarrow> (\<forall>c\<in>set s. isWhiteSpace c)"
proof
  assume "trim s = []"
  then have "\<forall>c\<in>set (dropWhile isWhiteSpace s). isWhiteSpace c"
    by (simp add: trim_def)
  then have "dropWhile isWhiteSpace s = []"
    by (metis dropWhile_eq_Nil_conv hd_dropWhile hd_in_set)
  then show "\<forall>c\<in>set s. isWhiteSpace c" by simp
next
  assume "\<forall>c\<in>set s. isWhiteSpace c"
  then have d: "dropWhile isWhiteSpace s = []" by simp
  show "trim s = []" unfolding trim_def d by simp
qed

lemma count_words_tokens:
  "count_words s = (if trim s = [] then 0 else length (tokens (trim s)))"
proof (cases "trim s = []")
  case True
  then show ?thesis by (simp add: count_words_def)
next
  case False
  have "[] \<notin> set (split_whitespace [] (trim s))"
    using False trim_hd[OF False] trim_last[OF False] by (intro split_whitespace_nonempty) auto
  then have "filter (\<lambda>t. t \<noteq> []) (split_whitespace [] (trim s)) = split_whitespace [] (trim s)"
    by (simp add: filter_id_conv) metis
  then show ?thesis using False
    by (simp add: count_words_def tokens_def split_whitespace_tokens[symmetric])
qed

text \<open>
  C3. The word count is 0 when the trimmed content is empty, which is the case exactly
  when the content holds white space only, and otherwise it is the number of maximal
  white-space-delimited non-empty tokens of the trimmed content.
\<close>

theorem word_count_is_token_count:
  "(trim content = [] \<longrightarrow> words (text_stats content) = 0) \<and>
   (trim content \<noteq> [] \<longrightarrow> words (text_stats content) = length (tokens (trim content))) \<and>
   ((\<forall>c\<in>set content. isWhiteSpace c) \<longrightarrow> words (text_stats content) = 0)"
  by (simp add: text_stats_def count_words_tokens trim_all_whitespace)

theorem word_count_is_token_count_witness:
  "trim (js ''a b  c'') \<noteq> [] \<and> words (text_stats (js ''a b  c'')) = 3 \<and>
   length (tokens (trim (js ''a b  c''))) = 3 \<and>
   trim (js ''   \<newline>'' @ [0x09, 0x20]) = [] \<and>
   words (text_stats (js ''   \<newline>'' @ [0x09, 0x20])) = 0"
proof -
  have t: "trim (js ''a b  c'') = js ''a b  c''"
    by (simp add: trim_def js_def isWhiteSpace_def)
  have n: "length (tokens (js ''a b  c'')) = 3"
    by (simp add: tokens_def js_def isWhiteSpace_def)
  have w: "\<forall>c\<in>set (js ''   \<newline>'' @ [0x09, 0x20]). isWhiteSpace c"
    by (simp add: js_def isWhiteSpace_def)
  from word_count_is_token_count[of "js ''a b  c''"] t n
  have "words (text_stats (js ''a b  c'')) = 3" by (simp add: js_def)
  moreover from word_count_is_token_count[of "js ''   \<newline>'' @ [0x09, 0x20]"] w
  have "words (text_stats (js ''   \<newline>'' @ [0x09, 0x20])) = 0" by blast
  moreover have "trim (js ''   \<newline>'' @ [0x09, 0x20]) = []"
    using w by (simp only: trim_all_whitespace)
  ultimately show ?thesis using t n by (simp add: js_def)
qed

text \<open>
  C4. The line count is 0 for the empty content and otherwise the number of line feed
  characters plus one, so a trailing line feed counts one more line.
\<close>

theorem line_count_is_newlines_plus_one:
  "lines (text_stats content) = (if content = [] then 0 else count_list content 0x0A + 1)"
  by (simp add: text_stats_def count_lines_def split_newline_def length_split_at)

theorem line_count_is_newlines_plus_one_witness:
  "lines (text_stats (js '''')) = 0 \<and> lines (text_stats (js ''a'')) = 1 \<and>
   lines (text_stats (js ''a\<newline>b\<newline>c'')) = 3 \<and> lines (text_stats (js ''a\<newline>'')) = 2"
  using line_count_is_newlines_plus_one[of "js ''''"]
    line_count_is_newlines_plus_one[of "js ''a''"]
    line_count_is_newlines_plus_one[of "js ''a\<newline>b\<newline>c''"]
    line_count_is_newlines_plus_one[of "js ''a\<newline>''"]
  by (simp add: js_def)

text \<open>
  C9. The character count is the length of the content in UTF-16 code units: every
  code unit counts, white space and line feeds included.
\<close>

theorem char_count_is_length: "chars (text_stats s) = length s"
  by (simp add: text_stats_def count_chars_def)

section \<open>Properties of removing indentation\<close>

lemma unindent_from_result:
  "endLine < length lns \<Longrightarrow>
   \<exists>res. unindent_from i endLine lns = Inr res \<and> length res = length lns \<and>
     (\<forall>j<length lns. res ! j =
        (if i \<le> j \<and> j \<le> endLine then unindent_line (lns ! j) else lns ! j))"
proof (induction i endLine lns rule: unindent_from.induct)
  case (1 i endLine lns)
  show ?case
  proof (cases "i \<le> endLine")
    case False
    then show ?thesis by (subst unindent_from.simps) auto
  next
    case True
    with "1.prems" have lt: "i < length lns" by simp
    let ?l' = "lns[i := unindent_line (lns ! i)]"
    from "1.IH"[OF True lt] "1.prems" obtain res where
      r: "unindent_from (i + 1) endLine ?l' = Inr res" "length res = length lns"
         "\<forall>j<length lns. res ! j =
            (if i + 1 \<le> j \<and> j \<le> endLine then unindent_line (?l' ! j) else ?l' ! j)"
      by auto
    have "\<forall>j<length lns. res ! j =
            (if i \<le> j \<and> j \<le> endLine then unindent_line (lns ! j) else lns ! j)"
    proof (intro allI impI)
      fix j assume j: "j < length lns"
      show "res ! j = (if i \<le> j \<and> j \<le> endLine then unindent_line (lns ! j) else lns ! j)"
        using r(3) j True by (cases "j = i") (auto simp: nth_list_update)
    qed
    with r(1,2) True lt show ?thesis by (subst unindent_from.simps) simp
  qed
qed

lemma count_list_take: "count_list (take n xs) y \<le> count_list xs y"
  by (induction xs arbitrary: n) (auto simp: take_Cons split: nat.splits)

lemma line_of_bound: "line_of val pos < length (split_newline val)"
  by (simp add: line_of_def split_newline_def length_split_at count_list_take less_Suc_eq_le)

lemma startsWith_split: "startsWith l p \<Longrightarrow> l = p @ drop (length p) l"
  unfolding startsWith_def by (metis append_take_drop_id)

lemma unindent_line_cases:
  "(startsWith l [0x09] \<longrightarrow> l = 0x09 # unindent_line l) \<and>
   (\<not> startsWith l [0x09] \<and> startsWith l (js ''    '') \<longrightarrow> l = js ''    '' @ unindent_line l) \<and>
   (\<not> startsWith l [0x09] \<and> \<not> startsWith l (js ''    '') \<longrightarrow> unindent_line l = l)"
proof -
  have t: "l = 0x09 # drop 1 l" if "startsWith l [0x09]"
    using startsWith_split[OF that] by simp
  have "length (js ''    '') = 4" by (simp add: js_def)
  then have f: "l = js ''    '' @ drop 4 l" if "startsWith l (js ''    '')"
    using startsWith_split[OF that] by simp
  show ?thesis using t f by (simp add: unindent_line_def)
qed

text \<open>
  C2, as the code has it. \<open>removeIndentation\<close> never throws, keeps the number of lines,
  and changes only the lines from the one holding the selection start to the one
  holding the selection end. Of such a line exactly one leading tab is removed; failing
  that, exactly four leading spaces are removed when the line starts with four spaces;
  any other line, one that starts with one to three spaces included, is left as it is.
\<close>

theorem removeIndentation_lines:
  "\<exists>res. removeIndentation start end val = Inr res \<and>
     length res = length (split_newline val) \<and>
     (\<forall>j<length res.
        if line_of val start \<le> j \<and> j \<le> line_of val end then
          (if startsWith (split_newline val ! j) [0x09]
             then split_newline val ! j = 0x09 # res ! j
           else if startsWith (split_newline val ! j) (js ''    '')
             then split_newline val ! j = js ''    '' @ res ! j
           else res ! j = split_newline val ! j)
        else res ! j = split_newline val ! j)"
proof -
  from unindent_from_result[where i = "line_of val start", OF line_of_bound[of val "end"]]
  obtain res where r: "removeIndentation start end val = Inr res"
    "length res = length (split_newline val)"
    "\<forall>j<length (split_newline val). res ! j =
        (if line_of val start \<le> j \<and> j \<le> line_of val end
         then unindent_line (split_newline val ! j) else split_newline val ! j)"
    unfolding removeIndentation_def by blast
  show ?thesis
    apply (rule exI[of _ res])
    using r unindent_line_cases by simp
qed

theorem removeIndentation_lines_witness:
  "removeIndentation 4 13 ([0x09] @ js ''ab\<newline>      cd\<newline>  e\<newline>'' @ [0x09] @ js ''f'') =
     Inr [[0x09] @ js ''ab'', js ''  cd'', js ''  e'', [0x09] @ js ''f'']"
  using removeIndentation_lines[of 4 13 "[0x09] @ js ''ab\<newline>      cd\<newline>  e\<newline>'' @ [0x09] @ js ''f''"]
  by (simp add: removeIndentation_def line_of_def split_newline_def unindent_from.simps
      unindent_line_def startsWith_def js_def)

text \<open>
  The specification's wording fails on a line with two leading spaces: the
  specification strips them, the code leaves the line alone.
\<close>

theorem removeIndentation_short_indent_counterexample:
  "removeIndentation 0 0 (js ''  x'') = Inr [js ''  x''] \<and>
   map spec_unindent_line (split_newline (js ''  x'')) = [js ''x'']"
  by (simp add: removeIndentation_def line_of_def split_newline_def unindent_from.simps
      unindent_line_def startsWith_def js_def spec_unindent_line_def)

section \<open>Properties of JSON\<close>

lemma hex_value_hex_digit: "n < 16 \<Longrightarrow> hex_value (hex_digit n) = Some n"
proof -
  assume "n < 16"
  then have "n \<in> {0, 1, 2, 3, 4, 5, 6, 7, 8, 9, 10, 11, 12, 13, 14, 15}" by simp arith
  then show ?thesis
    by (elim insertE emptyE) (simp_all add: hex_value_def hex_digit_def)
qed

lemma hex_sum: "((n div 4096 * 16 + n div 256 mod 16) * 16 + n div 16 mod 16) * 16
          + n mod 16 = (n::nat)"
proof -
  have a: "n div 4096 = n div 256 div 16" "n div 256 = n div 16 div 16"
    by (simp_all add: div_mult2_eq[symmetric])
  have "n div 4096 * 16 + n div 256 mod 16 = n div 256"
    unfolding a(1) by (rule div_mult_mod_eq)
  moreover have "n div 256 * 16 + n div 16 mod 16 = n div 16"
    unfolding a(2) by (rule div_mult_mod_eq)
  moreover have "n div 16 * 16 + n mod 16 = n" by (rule div_mult_mod_eq)
  ultimately show ?thesis by simp
qed

lemma hex4_unicode_escape:
  "hex4 (hex_digit (unat c div 4096)) (hex_digit (unat c div 256 mod 16))
        (hex_digit (unat c div 16 mod 16)) (hex_digit (unat c mod 16)) = Some c"
proof -
  have "unat c < 2 ^ 16" using unsigned_less[of c, where ?'a = nat] by simp
  then have "unat c div 4096 < 16" by simp
  then have h: "hex_value (hex_digit (unat c div 4096)) = Some (unat c div 4096)"
    "hex_value (hex_digit (unat c div 256 mod 16)) = Some (unat c div 256 mod 16)"
    "hex_value (hex_digit (unat c div 16 mod 16)) = Some (unat c div 16 mod 16)"
    "hex_value (hex_digit (unat c mod 16)) = Some (unat c mod 16)"
    by (simp_all add: hex_value_hex_digit)
  have "(of_nat (((unat c div 4096 * 16 + unat c div 256 mod 16) * 16 + unat c div 16 mod 16) * 16
          + unat c mod 16) :: unit16) = of_nat (unat c)"
    by (simp only: hex_sum)
  then show ?thesis
    unfolding hex4_def h by (simp del: of_nat_add of_nat_mult)
qed

lemma string_char_unicode_escape:
  "string_char (unicode_escape c @ rest) = Some (c, rest)"
  by (simp add: string_char_def unicode_escape_def hex4_unicode_escape)

lemma string_char_plain:
  "c \<noteq> 0x5C \<Longrightarrow> \<not> c < 0x20 \<Longrightarrow> string_char (c # rest) = Some (c, rest)"
  by (simp add: string_char_def)

lemma string_char_short:
  "unescape e = Some c \<Longrightarrow> e \<noteq> 0x75 \<Longrightarrow> string_char (0x5C # e # rest) = Some (c, rest)"
  by (simp add: string_char_def)

lemma lex_string_step:
  "c \<noteq> 0x22 \<Longrightarrow> string_char (c # cs) = Some (u, rest) \<Longrightarrow>
   lex_string (c # cs) = (case lex_string rest of None \<Rightarrow> None | Some (str, rest') \<Rightarrow> Some (u # str, rest'))"
  by (subst lex_string.simps) simp

lemma lex_string_end: "lex_string (0x22 # rest) = Some ([], rest)"
  by (subst lex_string.simps) simp

lemma surrogate_plain:
  "is_lead c \<or> is_trail c \<Longrightarrow> c \<noteq> 0x22 \<and> c \<noteq> 0x5C \<and> \<not> c < 0x20"
  by (auto simp: is_lead_def is_trail_def word_less_nat_alt word_le_nat_alt)

lemma unicode_escape_Cons: "unicode_escape c = 0x5C # tl (unicode_escape c)"
  by (simp add: unicode_escape_def)

lemma lex_string_unicode_escape:
  "lex_string (unicode_escape c @ s) =
     (case lex_string s of None \<Rightarrow> None | Some (str, rest') \<Rightarrow> Some (c # str, rest'))"
proof -
  have e: "unicode_escape c @ s = 0x5C # (tl (unicode_escape c) @ s)"
    by (simp add: unicode_escape_def)
  have sc: "string_char (0x5C # (tl (unicode_escape c) @ s)) = Some (c, s)"
    using string_char_unicode_escape[of c s] unfolding e .
  show ?thesis unfolding e by (rule lex_string_step[OF _ sc]) simp
qed

lemma lex_string_plain:
  "c \<noteq> 0x22 \<Longrightarrow> c \<noteq> 0x5C \<Longrightarrow> \<not> c < 0x20 \<Longrightarrow>
   lex_string (c # s) =
     (case lex_string s of None \<Rightarrow> None | Some (str, rest') \<Rightarrow> Some (c # str, rest'))"
  by (rule lex_string_step) (simp_all add: string_char_plain)

lemma lex_string_short:
  "unescape e = Some c \<Longrightarrow> e \<noteq> 0x75 \<Longrightarrow>
   lex_string (0x5C # e # s) =
     (case lex_string s of None \<Rightarrow> None | Some (str, rest') \<Rightarrow> Some (c # str, rest'))"
  by (rule lex_string_step) (simp_all add: string_char_short)

lemma short_escape_unescape:
  "short_escape c = Some e \<Longrightarrow> unescape e = Some c \<and> e \<noteq> 0x75"
  by (auto simp: short_escape_def unescape_def split: if_splits)

lemma short_escape_None: "short_escape c = None \<Longrightarrow> c \<noteq> 0x22 \<and> c \<noteq> 0x5C"
  by (auto simp: short_escape_def split: if_splits)

text \<open>
  A quoted string reads back as the string it was made from, whatever follows the closing
  quote: by induction along the quoting.
\<close>

lemma lex_string_quote_units:
  "lex_string (quote_units s @ 0x22 # rest) = Some (s, rest)"
proof (induction s rule: quote_units.induct)
  case 1
  show ?case by (simp add: lex_string_end)
next
  case (2 c cs)
  show ?case
  proof (cases "short_escape c")
    case (Some e)
    with "2.IH" short_escape_unescape[OF Some] show ?thesis
      by (simp add: lex_string_short)
  next
    case None
    note ne = short_escape_None[OF None]
    show ?thesis
    proof (cases "c < 0x20")
      case True
      with None "2.IH" show ?thesis by (simp add: lex_string_unicode_escape)
    next
      case nc: False
      show ?thesis
      proof (cases "is_lead c")
        case lead: True
        show ?thesis
        proof (cases cs)
          case Nil
          with None nc lead show ?thesis
            by (simp add: lex_string_unicode_escape lex_string_end)
        next
          case (Cons d ds)
          show ?thesis
          proof (cases "is_trail d")
            case True
            from "2.IH" None nc lead Cons surrogate_plain[of d] True
            have "lex_string (d # quote_units ds @ 0x22 # rest) = Some (d # ds, rest)"
              by (simp add: lex_string_plain)
            with None nc lead Cons True ne show ?thesis
              by (simp add: lex_string_plain)
          next
            case False
            with None nc lead Cons "2.IH" show ?thesis
              by (simp add: lex_string_unicode_escape)
          qed
        qed
      next
        case nl: False
        show ?thesis
        proof (cases "is_trail c")
          case True
          with None nc nl "2.IH" show ?thesis by (simp add: lex_string_unicode_escape)
        next
          case False
          with None nc nl ne "2.IH" show ?thesis by (simp add: lex_string_plain)
        qed
      qed
    qed
  qed
qed

lemma digit_is_digit: "n < 10 \<Longrightarrow> is_digit (0x30 + of_nat n) \<and> ((0x30 + of_nat n :: unit16) = 0x30 \<longrightarrow> n = 0)"
proof -
  assume "n < 10"
  then have "n \<in> {0, 1, 2, 3, 4, 5, 6, 7, 8, 9}" by simp arith
  then show ?thesis
    by (elim insertE emptyE) (simp_all add: is_digit_def)
qed

lemma decimal_digits:
  "decimal n \<noteq> [] \<and> (\<forall>x\<in>set (decimal n). is_digit x) \<and> (hd (decimal n) = 0x30 \<longrightarrow> n = 0)"
proof (induction n rule: decimal.induct)
  case (1 n)
  show ?case
  proof (cases "n < 10")
    case True
    then show ?thesis using digit_is_digit[OF True] by (subst (1 2 3) decimal.simps) simp
  next
    case False
    have m: "n mod 10 < 10" by simp
    from False have "n div 10 \<noteq> 0" by simp
    with "1.IH"[OF False] digit_is_digit[OF m] False show ?thesis
      by (subst (1 2 3) decimal.simps) auto
  qed
qed

lemma lex_exponent_end: "ends_number c \<Longrightarrow> lex_exponent acc (c # r) = Some (acc, c # r)"
  by (simp add: lex_exponent_def ends_number_def)

lemma lex_fraction_end: "ends_number c \<Longrightarrow> lex_fraction acc (c # r) = Some (acc, c # r)"
  by (simp add: lex_fraction_def lex_exponent_end) (simp add: ends_number_def)

lemma lex_number_decimal:
  assumes "ends_number c"
  shows "lex_number (decimal n @ c # r) = Some (decimal n, c # r)"
proof -
  from decimal_digits[of n] obtain d ds where
    d: "decimal n = d # ds" "is_digit d" "\<forall>x\<in>set ds. is_digit x" "d = 0x30 \<longrightarrow> n = 0"
    by (cases "decimal n") auto
  have nd: "\<not> is_digit c" using assms by (simp add: ends_number_def)
  have t: "takeWhile is_digit (ds @ c # r) = ds" "dropWhile is_digit (ds @ c # r) = c # r"
    using d(3) nd by (simp_all add: takeWhile_append2 dropWhile_append2)
  have m: "d \<noteq> 0x2D" using d(2) by (auto simp: is_digit_def)
  show ?thesis
  proof (cases "d = 0x30")
    case True
    with d(4) have "decimal n = [0x30]" by (simp add: decimal.simps)
    then show ?thesis using assms by (simp add: lex_number_def lex_fraction_end)
  next
    case False
    then show ?thesis using d(1,2) m t assms
      by (simp add: lex_number_def lex_fraction_end)
  qed
qed

lemma lex_Nil: "lex_json [] = Some []"
  by (subst lex_json.simps) simp

lemma lex_punctuation:
  "punctuation c = Some t \<Longrightarrow> lex_json (c # s) = map_option ((#) t) (lex_json s)"
proof -
  assume p: "punctuation c = Some t"
  then have "\<not> is_json_space c"
    by (auto simp: punctuation_def is_json_space_def split: if_splits)
  then show ?thesis using p by (subst lex_json.simps) (simp add: next_token_def)
qed

lemma lex_QuoteJSONString:
  "lex_json (QuoteJSONString s @ rest) = map_option ((#) (TString s)) (lex_json rest)"
proof -
  have "lex_json (0x22 # quote_units s @ 0x22 # rest) = map_option ((#) (TString s)) (lex_json rest)"
    by (subst lex_json.simps) (simp add: next_token_def is_json_space_def punctuation_def lex_string_quote_units)
  then show ?thesis by (simp add: QuoteJSONString_def)
qed

lemma lex_decimal:
  assumes "ends_number c"
  shows "lex_json (decimal n @ c # r) = map_option ((#) (TNumber (decimal n))) (lex_json (c # r))"
proof -
  from decimal_digits[of n] obtain d ds where
    d: "decimal n = d # ds" "is_digit d"
    by (cases "decimal n") auto
  from d(2) have a: "\<not> is_json_space d" "punctuation d = None" "d \<noteq> 0x22"
    by (auto simp: is_digit_def is_json_space_def punctuation_def)
  have "lex_json (d # ds @ c # r) = map_option ((#) (TNumber (decimal n))) (lex_json (c # r))"
    using lex_number_decimal[OF assms, of n r] a d
    by (subst lex_json.simps) (simp add: next_token_def)
  then show ?thesis using d(1) by simp
qed

lemma lex_object3:
  "lex_json (JSON_stringify (JObject [(k1, JString a), (k2, JString b),
       (k3, JObject [(k4, JNumber (decimal x)), (k5, JNumber (decimal y)), (k6, JNumber (decimal z))])])) =
   Some [TLBrace, TString k1, TColon, TString a, TComma, TString k2, TColon, TString b, TComma,
         TString k3, TColon, TLBrace, TString k4, TColon, TNumber (decimal x), TComma,
         TString k5, TColon, TNumber (decimal y), TComma, TString k6, TColon, TNumber (decimal z),
         TRBrace, TRBrace]"
proof -
  have e: "ends_number 0x2C" "ends_number 0x7D"
    by (simp_all add: ends_number_def is_digit_def)
  have p: "punctuation 0x7B = Some TLBrace" "punctuation 0x7D = Some TRBrace"
    "punctuation 0x3A = Some TColon" "punctuation 0x2C = Some TComma"
    by (simp_all add: punctuation_def)
  show ?thesis
    by (simp add: js_def lex_QuoteJSONString lex_decimal[OF e(1)] lex_decimal[OF e(2)]
        lex_punctuation[OF p(1)] lex_punctuation[OF p(2)] lex_punctuation[OF p(3)]
        lex_punctuation[OF p(4)] lex_Nil)
qed

text \<open>The parser reads the serialised record back as the record.\<close>

lemma JSON_parse_saved_data:
  "JSON_parse (JSON_stringify (saved_data content timestamp)) = Some (saved_data content timestamp)"
  unfolding saved_data_def JSON_parse_def lex_object3 by simp

lemma JSON_parse_empty: "JSON_parse [] = None"
  by (simp add: JSON_parse_def lex_Nil)

lemma lex_open_brace: "lex_json (js ''{'') = Some [TLBrace]"
  using lex_punctuation[of "0x7B" TLBrace "[]"] by (simp add: punctuation_def lex_Nil js_def)

lemma lex_empty_object: "lex_json (js ''{}'') = Some [TLBrace, TRBrace]"
  using lex_punctuation[of "0x7B" TLBrace "[0x7D]"] lex_punctuation[of "0x7D" TRBrace "[]"]
  by (simp add: punctuation_def lex_Nil js_def)

lemma lex_null: "lex_json (js ''null'') = Some [TNull]"
  by (subst lex_json.simps)
     (simp add: lex_Nil js_def is_json_space_def next_token_def punctuation_def is_digit_def
        startsWith_def)

section \<open>Properties of saving and loading\<close>

lemma normalize_newlines_no_CR: "0x0D \<notin> set (normalize_newlines x)"
  by (induction x rule: normalize_newlines.induct) auto

lemma normalize_newlines_id: "0x0D \<notin> set x \<Longrightarrow> normalize_newlines x = x"
  by (induction x rule: normalize_newlines.induct) auto

lemma normalize_newlines_idem [simp]:
  "normalize_newlines (normalize_newlines x) = normalize_newlines x"
  by (rule normalize_newlines_id) (rule normalize_newlines_no_CR)

lemma initial_app_eq:
  "initial_app text st =
     \<lparr>textArea_raw = text, counters = \<lparr>chars = 0, words = 0, lines = 0\<rparr>, status = None,
      console = [], isTyping = False, confirms = 0, localStorage = st, clock = 0,
      typingTimer = None, autoSaveTimer = None, autoSaveInterval = Some 1,
      pending = [\<lparr>tid = 1, due = 30000, every = Some 30000, action = IntervalSave\<rparr>],
      next_timer = 2, ran = []\<rparr>"
  by (simp add: initial_app_def constructed_def startAutoSave_def setInterval_def add_timer_def)

lemma saveToLocalStorage_cases:
  "saveToLocalStorage p s =
     (let v = JSON_stringify (saved_data (textArea_value s) (toISOString p (clock s)));
          st = localStorage s;
          logged = st\<lparr>writes := writes st @ [(storage_key, v)]\<rparr>
      in if \<not> accessible st
         then Normal (console_error (js ''Error saving to localStorage:'') s)
         else if full_for st storage_key v
         then Normal (console_error (js ''Error saving to localStorage:'') (s\<lparr>localStorage := logged\<rparr>))
         else Normal (s\<lparr>localStorage := logged\<lparr>items := (items st)(storage_key \<mapsto> v)\<rparr>\<rparr>))"
  by (simp add: saveToLocalStorage_def save_attempt_def setItem_def Let_def)

text \<open>
  C8. \<open>saveToLocalStorage\<close> completes normally in every state. When the store refuses
  the write, because it is not accessible or because it is full, the stored items and the
  text are as before and the failure has been logged with \<open>console.error\<close>.
\<close>

theorem saveToLocalStorage_never_throws:
  "\<exists>s'. saveToLocalStorage p s = Normal s' \<and>
     (\<not> accessible (localStorage s) \<or>
      full_for (localStorage s) storage_key
        (JSON_stringify (saved_data (textArea_value s) (toISOString p (clock s)))) \<longrightarrow>
      items (localStorage s') = items (localStorage s) \<and>
      textArea_value s' = textArea_value s \<and>
      console s' = console s @ [js ''Error saving to localStorage:''])"
  by (auto simp: saveToLocalStorage_cases Let_def console_error_def textArea_value_def)

theorem saveToLocalStorage_never_throws_witness:
  "\<not> accessible (empty_storage\<lparr>accessible := False\<rparr>) \<and>
   (\<exists>s'. saveToLocalStorage example_platform
           (initial_app (js ''abc'') (empty_storage\<lparr>accessible := False\<rparr>)) = Normal s' \<and>
         items (localStorage s') = Map.empty \<and> textArea_value s' = js ''abc'' \<and>
         console s' = [js ''Error saving to localStorage:''])"
  using saveToLocalStorage_never_throws[of example_platform
      "initial_app (js ''abc'') (empty_storage\<lparr>accessible := False\<rparr>)"]
  by (auto simp: initial_app_eq empty_storage_def textArea_value_def js_def)

lemma read_saved_after_save:
  assumes "accessible st" "items st storage_key = Some (JSON_stringify (saved_data content ts))"
  shows "read_saved p st = Inr (Some (saved_data content ts, content))"
proof -
  have ne: "JSON_stringify (saved_data content ts) \<noteq> []"
    by (simp add: saved_data_def js_def)
  have k: "js ''content'' \<noteq> js ''timestamp''" "js ''content'' \<noteq> js ''stats''"
    by (simp_all add: js_def)
  have c: "get_property (saved_data content ts) (js ''content'') = Inr (Some (JString content))"
    using k by (simp add: saved_data_def)
  show ?thesis
    using assms ne c
    by (simp add: read_saved_def getItem_def JSON_parse_saved_data or_empty_def)
qed

lemma loadSavedContent_absent:
  "read_saved p (localStorage s) = Inr None \<or> read_saved p (localStorage s) = Inl e \<Longrightarrow>
   \<exists>s'. loadSavedContent p s = Normal s' \<and> textArea_value s' = textArea_value s"
  by (auto simp: loadSavedContent_def load_attempt_def console_error_def textArea_value_def)

lemma loadSavedContent_present:
  "read_saved p (localStorage s) = Inr (Some (data, c)) \<Longrightarrow>
   \<exists>s'. loadSavedContent p s = Normal s' \<and> textArea_value s' = normalize_newlines c"
  by (auto simp: loadSavedContent_def load_attempt_def restore_notice_def updateStats_def
      showStatus_def console_error_def Let_def textArea_value_def set_textArea_value_def
      split: sum.splits option.splits)

text \<open>
  C1. When the store accepts the write of \<open>saveToLocalStorage\<close>, loading from that store,
  in any state of the application that has it, restores exactly the content that was
  saved: \<open>restore\<close> gives a document with that content and \<open>loadSavedContent\<close> leaves it
  in the text area.
\<close>

theorem persist_then_restore:
  assumes "accessible (localStorage s)"
    and "\<not> full_for (localStorage s) storage_key
           (JSON_stringify (saved_data (textArea_value s) (toISOString p (clock s))))"
    and "saveToLocalStorage p s = Normal s1"
    and "localStorage s2 = localStorage s1"
  shows "restore p' (localStorage s2) = Some (textArea_value s) \<and>
         (\<exists>s3. loadSavedContent p' s2 = Normal s3 \<and> textArea_value s3 = textArea_value s)"
proof -
  let ?ts = "toISOString p (clock s)"
  have a: "accessible (localStorage s2)"
    "items (localStorage s2) storage_key = Some (JSON_stringify (saved_data (textArea_value s) ?ts))"
    using assms by (auto simp: saveToLocalStorage_cases Let_def)
  note r = read_saved_after_save[OF a, of p']
  have n: "normalize_newlines (textArea_value s) = textArea_value s"
    by (simp add: textArea_value_def)
  have "restore p' (localStorage s2) = Some (textArea_value s)"
    by (simp add: restore_def r n)
  moreover have "\<exists>s3. loadSavedContent p' s2 = Normal s3 \<and> textArea_value s3 = textArea_value s"
    using loadSavedContent_present[OF r] n by simp
  ultimately show ?thesis by simp
qed

theorem persist_then_restore_witness:
  "\<exists>s1. saveToLocalStorage example_platform (initial_app (js ''a b\<newline>c'') empty_storage) = Normal s1 \<and>
      restore example_platform (localStorage s1) = Some (js ''a b\<newline>c'') \<and>
      (\<exists>s3. loadSavedContent example_platform (initial_app [] (localStorage s1)) = Normal s3 \<and>
            textArea_value s3 = js ''a b\<newline>c'')"
proof -
  let ?s = "initial_app (js ''a b\<newline>c'') empty_storage"
  obtain s1 where s1: "saveToLocalStorage example_platform ?s = Normal s1"
    by (simp add: saveToLocalStorage_cases Let_def initial_app_eq empty_storage_def)
  have a: "accessible (localStorage ?s)" by (simp add: initial_app_eq empty_storage_def)
  have f: "\<not> full_for (localStorage ?s) storage_key
           (JSON_stringify (saved_data (textArea_value ?s) (toISOString example_platform (clock ?s))))"
    by (simp add: initial_app_eq empty_storage_def)
  have l: "localStorage (initial_app [] (localStorage s1)) = localStorage s1"
    by (simp add: initial_app_eq)
  have t: "textArea_value ?s = js ''a b\<newline>c''"
    by (simp add: initial_app_eq textArea_value_def js_def)
  from persist_then_restore[OF a f s1 l, of example_platform] s1 t l
  show ?thesis by simp
qed

text \<open>
  C7, as the code has it. When the store cannot be read, the key is absent, or the stored
  value is not JSON or is the JSON value \<open>null\<close>, \<open>restore\<close> gives absent and the text
  area keeps its content (the empty string at start-up). When the stored value parses to
  another JSON value, its \<open>content\<close> member decides: a missing or falsy member gives a
  document with the empty content; a string gives a document with that string, and any
  other truthy member that converts to a string gives a document with the conversion,
  in both cases with CR LF and CR turned into LF, as the text area holds it; a truthy
  member that does not convert to a string (an object with a member \<open>toString\<close>) gives
  absent and the text area keeps its content.
\<close>

theorem restore_document_or_absent:
  "(\<not> accessible (localStorage s) \<or>
    items (localStorage s) storage_key = None \<or>
    (items (localStorage s) storage_key = Some v \<and>
       (JSON_parse v = None \<or> JSON_parse v = Some JNull)) \<longrightarrow>
      restore p (localStorage s) = None \<and>
      (\<exists>s'. loadSavedContent p s = Normal s' \<and> textArea_value s' = textArea_value s)) \<and>
   (accessible (localStorage s) \<and> items (localStorage s) storage_key = Some v \<and>
    JSON_parse v = Some data \<and> data \<noteq> JNull \<and>
    get_property data (js ''content'') = Inr member \<longrightarrow>
      (member = None \<or> (member = Some x \<and> \<not> truthy p x) \<longrightarrow>
         restore p (localStorage s) = Some [] \<and>
         (\<exists>s'. loadSavedContent p s = Normal s' \<and> textArea_value s' = [])) \<and>
      (member = Some (JString c) \<or> (member = Some x \<and> truthy p x \<and> ToString p x = Inr c) \<longrightarrow>
         restore p (localStorage s) = Some (normalize_newlines c) \<and>
         (\<exists>s'. loadSavedContent p s = Normal s' \<and> textArea_value s' = normalize_newlines c)) \<and>
      (member = Some x \<and> truthy p x \<and> ToString p x = Inl e \<longrightarrow>
         restore p (localStorage s) = None \<and>
         (\<exists>s'. loadSavedContent p s = Normal s' \<and> textArea_value s' = textArea_value s)))"
proof (intro conjI impI)
  assume a: "\<not> accessible (localStorage s) \<or> items (localStorage s) storage_key = None \<or>
    (items (localStorage s) storage_key = Some v \<and>
       (JSON_parse v = None \<or> JSON_parse v = Some JNull))"
  then have r: "read_saved p (localStorage s) = Inr None \<or> (\<exists>e. read_saved p (localStorage s) = Inl e)"
    by (elim disjE conjE) (simp_all add: read_saved_def getItem_def)
  then show "restore p (localStorage s) = None" by (auto simp: restore_def)
  from r show "\<exists>s'. loadSavedContent p s = Normal s' \<and> textArea_value s' = textArea_value s"
    using loadSavedContent_absent by blast
next
  assume a: "accessible (localStorage s) \<and> items (localStorage s) storage_key = Some v \<and>
    JSON_parse v = Some data \<and> data \<noteq> JNull \<and> get_property data (js ''content'') = Inr member"
  then have ne: "v \<noteq> []" using JSON_parse_empty by auto
  from a ne have rs: "read_saved p (localStorage s) =
      (case or_empty p member of Inl e \<Rightarrow> Inl e | Inr content \<Rightarrow> Inr (Some (data, content)))"
    by (simp add: read_saved_def getItem_def)
  {
    assume "member = None \<or> (member = Some x \<and> \<not> truthy p x)"
    then have "or_empty p member = Inr []" by (auto simp: or_empty_def)
    with rs have r: "read_saved p (localStorage s) = Inr (Some (data, []))" by simp
    then show "restore p (localStorage s) = Some []" by (simp add: restore_def)
    from loadSavedContent_present[OF r]
    show "\<exists>s'. loadSavedContent p s = Normal s' \<and> textArea_value s' = []" by simp
  }
  {
    assume "member = Some (JString c) \<or> (member = Some x \<and> truthy p x \<and> ToString p x = Inr c)"
    then have "or_empty p member = Inr c" by (auto simp: or_empty_def)
    with rs have r: "read_saved p (localStorage s) = Inr (Some (data, c))" by simp
    then show "restore p (localStorage s) = Some (normalize_newlines c)" by (simp add: restore_def)
    from r show "\<exists>s'. loadSavedContent p s = Normal s' \<and> textArea_value s' = normalize_newlines c"
      by (rule loadSavedContent_present)
  }
  {
    assume "member = Some x \<and> truthy p x \<and> ToString p x = Inl e"
    then have "or_empty p member = Inl e" by (auto simp: or_empty_def)
    with rs have r: "read_saved p (localStorage s) = Inl e" by simp
    then show "restore p (localStorage s) = None" by (simp add: restore_def)
    from r show "\<exists>s'. loadSavedContent p s = Normal s' \<and> textArea_value s' = textArea_value s"
      using loadSavedContent_absent by blast
  }
qed

lemma parse_member:
  "JSON_parse (JSON_stringify (JObject [(js ''content'', JBool False)])) =
     Some (JObject [(js ''content'', JBool False)])"
  "JSON_parse (JSON_stringify (JObject [(js ''content'', JBool True)])) =
     Some (JObject [(js ''content'', JBool True)])"
  "JSON_parse (JSON_stringify (JObject [(js ''content'', JObject [(js ''toString'', JNumber (js ''1''))])])) =
     Some (JObject [(js ''content'', JObject [(js ''toString'', JNumber (js ''1''))])])"
  by code_simp+

theorem restore_document_or_absent_witness:
  "JSON_parse (js ''{'') = None \<and>
   restore example_platform (empty_storage\<lparr>items := [storage_key \<mapsto> js ''{'']\<rparr>) = None \<and>
   (\<exists>s'. loadSavedContent example_platform
           (constructed [] (empty_storage\<lparr>items := [storage_key \<mapsto> js ''{'']\<rparr>)) = Normal s' \<and>
         textArea_value s' = []) \<and>
   JSON_parse (js ''{}'') = Some (JObject []) \<and>
   restore example_platform (empty_storage\<lparr>items := [storage_key \<mapsto> js ''{}'']\<rparr>) = Some [] \<and>
   restore example_platform
     (empty_storage\<lparr>items := [storage_key \<mapsto>
        JSON_stringify (JObject [(js ''content'', JBool False)])]\<rparr>) = Some [] \<and>
   restore example_platform
     (empty_storage\<lparr>items := [storage_key \<mapsto>
        JSON_stringify (saved_data (js ''a'' @ [0x0D, 0x0A] @ js ''b'') (js ''now''))]\<rparr>)
     = Some (js ''a\<newline>b'') \<and>
   restore example_platform
     (empty_storage\<lparr>items := [storage_key \<mapsto>
        JSON_stringify (JObject [(js ''content'', JBool True)])]\<rparr>) = Some (js ''true'') \<and>
   restore example_platform
     (empty_storage\<lparr>items := [storage_key \<mapsto>
        JSON_stringify (JObject [(js ''content'', JObject [(js ''toString'', JNumber (js ''1''))])])]\<rparr>)
     = None"
proof -
  let ?st = "\<lambda>v. empty_storage\<lparr>items := [storage_key \<mapsto> v]\<rparr>"
  let ?app = "\<lambda>v. constructed [] (?st v)"
  let ?false = "JObject [(js ''content'', JBool False)]"
  let ?true = "JObject [(js ''content'', JBool True)]"
  let ?obj = "JObject [(js ''content'', JObject [(js ''toString'', JNumber (js ''1''))])]"
  let ?doc = "saved_data (js ''a'' @ [0x0D, 0x0A] @ js ''b'') (js ''now'')"
  define vf where "vf = JSON_stringify ?false"
  define vt where "vt = JSON_stringify ?true"
  define vo where "vo = JSON_stringify ?obj"
  define vd where "vd = JSON_stringify ?doc"
  have b: "JSON_parse (js ''{'') = None" by (simp add: JSON_parse_def lex_open_brace)
  have e: "JSON_parse (js ''{}'') = Some (JObject [])" by (simp add: JSON_parse_def lex_empty_object)
  have pf: "JSON_parse vf = Some ?false" unfolding vf_def by (rule parse_member)
  have pt: "JSON_parse vt = Some ?true" unfolding vt_def by (rule parse_member)
  have po: "JSON_parse vo = Some ?obj" unfolding vo_def by (rule parse_member)
  have pd: "JSON_parse vd = Some ?doc" unfolding vd_def by (rule JSON_parse_saved_data)
  have gd: "get_property ?doc (js ''content'') = Inr (Some (JString (js ''a'' @ [0x0D, 0x0A] @ js ''b'')))"
    by (simp add: saved_data_def js_def)
  have nd: "?doc \<noteq> JNull" by (simp add: saved_data_def)
  have st: "localStorage (?app v) = ?st v" "accessible (?st v)" "items (?st v) storage_key = Some v"
    for v by (simp_all add: constructed_def empty_storage_def)
  from restore_document_or_absent[of "?app (js ''{'')" "js ''{''" example_platform] b
  have 1: "restore example_platform (?st (js ''{'')) = None \<and>
    (\<exists>s'. loadSavedContent example_platform (?app (js ''{'')) = Normal s' \<and> textArea_value s' = [])"
    by (simp add: st) (simp add: constructed_def textArea_value_def)
  from restore_document_or_absent[of "?app (js ''{}'')" "js ''{}''" example_platform
      "JObject []" None] e
  have 2: "restore example_platform (?st (js ''{}'')) = Some []"
    by (simp add: st)
  from restore_document_or_absent[of "?app vf" vf example_platform ?false
      "Some (JBool False)" "JBool False"] pf
  have 3: "restore example_platform (?st vf) = Some []"
    by (simp add: st)
  from restore_document_or_absent[of "?app vd" vd example_platform ?doc
      "Some (JString (js ''a'' @ [0x0D, 0x0A] @ js ''b''))" _
      "js ''a'' @ [0x0D, 0x0A] @ js ''b''"] pd gd nd
  have 4: "restore example_platform (?st vd) = Some (js ''a\<newline>b'')"
    by (simp add: st) (simp add: js_def)
  from restore_document_or_absent[of "?app vt" vt example_platform ?true
      "Some (JBool True)" "JBool True" "js ''true''"] pt
  have 5: "restore example_platform (?st vt) = Some (js ''true'')"
    by (simp add: st) (simp add: js_def)
  from restore_document_or_absent[of "?app vo" vo example_platform ?obj
      "Some (JObject [(js ''toString'', JNumber (js ''1''))])"
      "JObject [(js ''toString'', JNumber (js ''1''))]" _ TypeError] po
  have 6: "restore example_platform (?st vo) = None"
    by (simp add: st)
  from 1 2 3 4 5 6 b e show ?thesis unfolding vf_def vt_def vo_def vd_def by blast
qed

text \<open>
  The specification's wording fails on the stored text \<open>null\<close>: the key is
  present and the value parses, yet reading \<open>data.content\<close> throws and nothing is
  restored.
\<close>

theorem restore_null_counterexample:
  "items (empty_storage\<lparr>items := [storage_key \<mapsto> js ''null'']\<rparr>) storage_key = Some (js ''null'') \<and>
   JSON_parse (js ''null'') = Some JNull \<and>
   restore example_platform (empty_storage\<lparr>items := [storage_key \<mapsto> js ''null'']\<rparr>) = None"
  by (simp add: JSON_parse_def lex_null restore_def read_saved_def getItem_def empty_storage_def)

section \<open>Properties of clearing\<close>

text \<open>
  C6. On the empty content \<open>clearContent\<close> shows no confirmation dialog, leaves the
  content as it is and leaves the store as it is, its record of writes included.
\<close>

theorem clear_empty_is_noop:
  "textArea_value s = [] \<Longrightarrow>
   \<exists>s'. clearContent p answer s = Normal s' \<and> confirms s' = confirms s \<and>
        textArea_value s' = textArea_value s \<and> localStorage s' = localStorage s"
  by (simp add: clearContent_def trim_def showStatus_def textArea_value_def)

theorem clear_empty_is_noop_witness:
  "\<exists>s'. clearContent example_platform True (initial_app [] empty_storage) = Normal s' \<and>
        confirms s' = 0 \<and> textArea_value s' = [] \<and> localStorage s' = empty_storage"
  using clear_empty_is_noop[of "initial_app [] empty_storage" example_platform True]
  by (simp add: initial_app_eq textArea_value_def)

text \<open>
  C10. The same holds of every content whose trim is empty. A content with a non-empty
  trim brings up the dialog; when the user declines nothing changes, and when the user
  confirms the content becomes empty and the empty content is written to the store, if
  the store can be accessed.
\<close>

theorem clear_blank_is_noop:
  "(trim (textArea_value s) = [] \<longrightarrow>
      (\<exists>s'. clearContent p answer s = Normal s' \<and> confirms s' = confirms s \<and>
         textArea_value s' = textArea_value s \<and> localStorage s' = localStorage s)) \<and>
   (trim (textArea_value s) \<noteq> [] \<and> \<not> answer \<longrightarrow>
      (\<exists>s'. clearContent p answer s = Normal s' \<and> confirms s' = confirms s + 1 \<and>
         textArea_value s' = textArea_value s \<and> localStorage s' = localStorage s)) \<and>
   (trim (textArea_value s) \<noteq> [] \<and> answer \<longrightarrow>
      (\<exists>s'. clearContent p answer s = Normal s' \<and> confirms s' = confirms s + 1 \<and>
         textArea_value s' = [] \<and>
         writes (localStorage s') = writes (localStorage s) @
           (if accessible (localStorage s)
            then [(storage_key, JSON_stringify (saved_data [] (toISOString p (clock s))))]
            else [])))"
  by (auto simp: clearContent_def showStatus_def saveToLocalStorage_cases Let_def updateStats_def
      console_error_def textArea_value_def set_textArea_value_def)

theorem clear_blank_is_noop_witness:
  "trim (js ''  \<newline> '') = [] \<and>
   (\<exists>s'. clearContent example_platform True (initial_app (js ''  \<newline> '') empty_storage) = Normal s' \<and>
        confirms s' = 0 \<and> textArea_value s' = js ''  \<newline> '' \<and> localStorage s' = empty_storage) \<and>
   trim (js '' x '') \<noteq> [] \<and>
   (\<exists>s'. clearContent example_platform False (initial_app (js '' x '') empty_storage) = Normal s' \<and>
        confirms s' = 1 \<and> textArea_value s' = js '' x '' \<and> localStorage s' = empty_storage) \<and>
   (\<exists>s'. clearContent example_platform True (initial_app (js '' x '') empty_storage) = Normal s' \<and>
        confirms s' = 1 \<and> textArea_value s' = [] \<and>
        writes (localStorage s') = [(storage_key, JSON_stringify (saved_data [] (show_int 0)))])"
proof -
  have b: "trim (js ''  \<newline> '') = []" by (simp add: trim_def js_def isWhiteSpace_def)
  have x: "trim (js '' x '') \<noteq> []" by (simp add: trim_def js_def isWhiteSpace_def)
  have t: "textArea_value (initial_app (js ''  \<newline> '') empty_storage) = js ''  \<newline> ''"
    "textArea_value (initial_app (js '' x '') empty_storage) = js '' x ''"
    by (simp_all add: initial_app_eq textArea_value_def js_def)
  from clear_blank_is_noop[of "initial_app (js ''  \<newline> '') empty_storage" example_platform True]
    clear_blank_is_noop[of "initial_app (js '' x '') empty_storage" example_platform False]
    clear_blank_is_noop[of "initial_app (js '' x '') empty_storage" example_platform True]
    b x t
  show ?thesis by (simp add: initial_app_eq empty_storage_def example_platform_def)
qed

section \<open>Properties of the debounced save\<close>

































end
